theory Spec2Isabelle
  imports Main
begin

section \<open>The catalog scraper \<^verbatim>\<open>scripts/scrapper.py\<close>\<close>

text \<open>
  The script walks a paginated product catalog (\<^verbatim>\<open>scrape_individual_tests\<close>), fetching
  every page with a bounded retry (\<^verbatim>\<open>fetch_page\<close>), turns every catalog row into a
  dictionary, and writes the list as a JSON document and as a CSV table.

  What the script does itself is modelled as it is written. What it calls in libraries
  is either modelled on the parsed data (the selectors it uses, \<^verbatim>\<open>str.strip\<close>,
  \<^verbatim>\<open>str.join\<close>, the column access of a data frame) or taken from the environment
  (\<open>world\<close>: what the network answers, what the HTML parser builds from a text, what
  \<^verbatim>\<open>urljoin\<close> returns).
\<close>

subsection \<open>Constants of the script\<close>

definition BASE_URL :: string where
  "BASE_URL = ''https://www.shl.com''"

definition CATALOG_URL :: string where
  "CATALOG_URL = BASE_URL @ ''/products/product-catalog/''"

text \<open>\<^verbatim>\<open>str(start)\<close> for the page offset, which starts at 0 and only grows.\<close>

definition digit_char :: "nat \<Rightarrow> char" where
  "digit_char d = char_of (48 + d)"

function str_nat :: "nat \<Rightarrow> string" where
  "str_nat n = (if n < 10 then [digit_char n] else str_nat (n div 10) @ [digit_char (n mod 10)])"
  by pat_completeness auto
termination
  by (relation "measure (\<lambda>n. n)") auto

declare str_nat.simps [simp del]

text \<open>\<^verbatim>\<open>f"{CATALOG_URL}?start={start}&type=1"\<close>\<close>

definition page_url :: "nat \<Rightarrow> string" where
  "page_url start = CATALOG_URL @ ''?start='' @ str_nat start @ ''&type=1''"

subsection \<open>Parsed markup and the selectors of the script\<close>

text \<open>
  A parsed document is a tree of elements and strings. An element has its name, its
  classes (the parser keeps \<^verbatim>\<open>class\<close> as a list), its other attributes and its
  contents. A \<open>tag\<close> is an element together with its ancestors, nearest first: a
  selector with a descendant combinator looks at the ancestors of a candidate, also
  above the element \<^verbatim>\<open>select\<close> was called on.
\<close>

datatype node =
    Element string "string list" "(string \<times> string) list" "node list"
  | NavigableString string

type_synonym tag = "node list \<times> node"

text \<open>\<^verbatim>\<open>tag.get(key)\<close>: the attribute, or None.\<close>

fun node_get :: "node \<Rightarrow> string \<Rightarrow> string option" where
  "node_get (Element n cs as ch) key = map_of as key"
| "node_get (NavigableString s) key = None"

definition tag_get :: "tag \<Rightarrow> string \<Rightarrow> string option" where
  "tag_get t key = node_get (snd t) key"

text \<open>\<^verbatim>\<open>tag.text\<close>: all strings below the element, in document order.\<close>

fun text_of :: "node \<Rightarrow> string" where
  "text_of (NavigableString s) = s"
| "text_of (Element n cs as ch) = concat (map text_of ch)"

definition tag_text :: "tag \<Rightarrow> string" where
  "tag_text t = text_of (snd t)"

text \<open>
  A compound selector: an optional element name, classes and attributes that must be
  present. A selector is a chain of compounds joined by the descendant combinator,
  outermost first.
\<close>

datatype compound = Compound "string option" "string list" "string list"

type_synonym selector = "compound list"

fun matches_compound :: "compound \<Rightarrow> node \<Rightarrow> bool" where
  "matches_compound (Compound nm cls ats) (Element n cs as ch) =
     ((case nm of None \<Rightarrow> True | Some m \<Rightarrow> m = n) \<and>
      list_all (\<lambda>c. c \<in> set cs) cls \<and>
      list_all (\<lambda>a. map_of as a \<noteq> None) ats)"
| "matches_compound (Compound nm cls ats) (NavigableString s) = False"

fun match_ancestors :: "compound list \<Rightarrow> node list \<Rightarrow> bool" where
  "match_ancestors [] ancs = True"
| "match_ancestors (c # cs) [] = False"
| "match_ancestors (c # cs) (a # ancs) =
     ((matches_compound c a \<and> match_ancestors cs ancs) \<or> match_ancestors (c # cs) ancs)"

definition matches :: "selector \<Rightarrow> tag \<Rightarrow> bool" where
  "matches sel t =
     (case rev sel of
        [] \<Rightarrow> False
      | c # cs \<Rightarrow> matches_compound c (snd t) \<and> match_ancestors cs (fst t))"

text \<open>The elements and strings below a node, in document order, each with its ancestors.\<close>

fun descendants :: "node list \<Rightarrow> node \<Rightarrow> tag list" where
  "descendants ancs (NavigableString s) = []"
| "descendants ancs (Element n cs as ch) =
     concat (map (\<lambda>c. (Element n cs as ch # ancs, c) #
                        descendants (Element n cs as ch # ancs) c) ch)"

text \<open>\<^verbatim>\<open>tag.select(sel)\<close> and \<^verbatim>\<open>tag.select_one(sel)\<close>\<close>

definition select :: "selector \<Rightarrow> tag \<Rightarrow> tag list" where
  "select sel t = filter (matches sel) (descendants (fst t) (snd t))"

definition select_one :: "selector \<Rightarrow> tag \<Rightarrow> tag option" where
  "select_one sel t = (case select sel t of [] \<Rightarrow> None | x # xs \<Rightarrow> Some x)"

text \<open>The six selectors of the script.\<close>

definition SEL_ROWS :: selector where
  \<comment> \<open>\<^verbatim>\<open>tr[data-entity-id]\<close>\<close>
  "SEL_ROWS = [Compound (Some ''tr'') [] [''data-entity-id'']]"

definition SEL_TITLE :: selector where
  \<comment> \<open>\<^verbatim>\<open>td.custom__table-heading__title a\<close>\<close>
  "SEL_TITLE = [Compound (Some ''td'') [''custom__table-heading__title''] [],
                Compound (Some ''a'') [] []]"

definition SEL_GENERAL :: selector where
  \<comment> \<open>\<^verbatim>\<open>td.custom__table-heading__general\<close>\<close>
  "SEL_GENERAL = [Compound (Some ''td'') [''custom__table-heading__general''] []]"

definition SEL_YES :: selector where
  \<comment> \<open>\<^verbatim>\<open>.-yes\<close>\<close>
  "SEL_YES = [Compound None [''-yes''] []]"

definition SEL_KEY :: selector where
  \<comment> \<open>\<^verbatim>\<open>.product-catalogue__key\<close>\<close>
  "SEL_KEY = [Compound None [''product-catalogue__key''] []]"

definition SEL_NEXT :: selector where
  \<comment> \<open>\<^verbatim>\<open>li.pagination__item.-next a\<close>\<close>
  "SEL_NEXT = [Compound (Some ''li'') [''pagination__item'', ''-next''] [],
               Compound (Some ''a'') [] []]"

subsection \<open>Strings\<close>

text \<open>
  A character of a text is a code point from 0 to 255. \<^verbatim>\<open>str.strip()\<close> removes leading
  and trailing whitespace, that is the characters for which \<^verbatim>\<open>str.isspace\<close> holds; among
  these code points they are tab, line feed, vertical tab, form feed, carriage return
  (0x09 to 0x0D), the four separators 0x1C to 0x1F, the space, the next-line character
  0x85 and the no-break space 0xA0.
\<close>

definition isspace :: "char \<Rightarrow> bool" where
  "isspace c = (c \<in> set [CHR 0x09, CHR 0x0A, CHR 0x0B, CHR 0x0C, CHR 0x0D,
                          CHR 0x1C, CHR 0x1D, CHR 0x1E, CHR 0x1F, CHR 0x20,
                          CHR 0x85, CHR 0xA0])"

definition strip :: "string \<Rightarrow> string" where
  "strip s = rev (dropWhile isspace (rev (dropWhile isspace s)))"

text \<open>\<^verbatim>\<open>sep.join(xs)\<close>\<close>

fun join :: "string \<Rightarrow> string list \<Rightarrow> string" where
  "join sep [] = []"
| "join sep [x] = x"
| "join sep (x # y # ys) = x @ sep @ join sep (y # ys)"

subsection \<open>The environment\<close>

text \<open>
  One attempt \<^verbatim>\<open>session.get(url)\<close> followed by \<^verbatim>\<open>raise_for_status()\<close> either gives the
  text of the response or raises a \<^verbatim>\<open>RequestException\<close> (timeout, connection error,
  error status). The environment says which, for every URL and every attempt on it;
  it also holds the HTML parser and \<^verbatim>\<open>urljoin\<close>, which raises \<^verbatim>\<open>ValueError\<close> on some
  inputs (\<open>None\<close> here).
\<close>

datatype outcome = Text string | RequestException

record world =
  http_get :: "string \<Rightarrow> nat \<Rightarrow> outcome"
  html_parser :: "string \<Rightarrow> node"
  urljoin :: "string \<Rightarrow> string \<Rightarrow> string option"

subsection \<open>\<^verbatim>\<open>fetch_page\<close>\<close>

text \<open>
  The loop \<^verbatim>\<open>for attempt in range(retries)\<close>. \<open>get\<close> is what the attempts on this URL
  give. The result is what the function returns (\<open>None\<close> is Python's None) together
  with the number of calls of \<^verbatim>\<open>session.get\<close> it made.
\<close>

function fetch_loop :: "(nat \<Rightarrow> outcome) \<Rightarrow> nat \<Rightarrow> nat \<Rightarrow> string option \<times> nat" where
  "fetch_loop get retries attempt =
     (if attempt < retries then
        (case get attempt of
           Text t \<Rightarrow> (Some t, attempt + 1)
         | RequestException \<Rightarrow> fetch_loop get retries (attempt + 1))
      else (None, attempt))"
  by pat_completeness auto
termination
  by (relation "measure (\<lambda>(get, retries, attempt). retries - attempt)") auto

declare fetch_loop.simps [simp del]

definition fetch_page :: "(nat \<Rightarrow> outcome) \<Rightarrow> nat \<Rightarrow> string option \<times> nat" where
  "fetch_page get retries = fetch_loop get retries 0"

subsection \<open>The body of the row loop\<close>

text \<open>The values of the dictionary the script builds for a row, and the exceptions.\<close>

datatype pyval = PNone | PStr string | PBool bool | PList "string list"

type_synonym dict = "(string \<times> pyval) list"

datatype error = AttributeError | KeyError | ValueError | IndexError | TypeError

definition opt_str :: "string option \<Rightarrow> pyval" where
  "opt_str v = (case v of None \<Rightarrow> PNone | Some s \<Rightarrow> PStr s)"

text \<open>
  Lines 51 to 71. \<^verbatim>\<open>title_tag.text\<close> on None is an AttributeError,
  \<^verbatim>\<open>title_tag["href"]\<close> without the attribute a KeyError, \<^verbatim>\<open>cols[0]\<close> and
  \<^verbatim>\<open>cols[1]\<close> on a shorter list an IndexError. \<^verbatim>\<open>bool\<close> of a tag is True, of None
  False.
\<close>

definition extract_row :: "world \<Rightarrow> tag \<Rightarrow> error + dict" where
  "extract_row w row =
     (let entity_id = tag_get row ''data-entity-id'' in
      case select_one SEL_TITLE row of
        None \<Rightarrow> Inl AttributeError
      | Some title_tag \<Rightarrow>
          let title = strip (tag_text title_tag) in
          (case tag_get title_tag ''href'' of
             None \<Rightarrow> Inl KeyError
           | Some href \<Rightarrow>
               (case urljoin w BASE_URL href of
                  None \<Rightarrow> Inl ValueError
                | Some link \<Rightarrow>
                    (case select SEL_GENERAL row of
                       [] \<Rightarrow> Inl IndexError
                     | [c0] \<Rightarrow> Inl IndexError
                     | c0 # c1 # cols \<Rightarrow>
                         let remote_testing = (select_one SEL_YES c0 \<noteq> None);
                             adaptive_irt = (select_one SEL_YES c1 \<noteq> None);
                             test_types = map (\<lambda>t. strip (tag_text t)) (select SEL_KEY row)
                         in Inr [(''entityId'', opt_str entity_id),
                                 (''name'', PStr title),
                                 (''url'', PStr link),
                                 (''remoteTesting'', PBool remote_testing),
                                 (''adaptiveIrt'', PBool adaptive_irt),
                                 (''testTypes'', PList test_types)]))))"

text \<open>\<^verbatim>\<open>for row in rows: ... results.append(...)\<close>: the first exception ends the loop.\<close>

fun extract_rows :: "world \<Rightarrow> tag list \<Rightarrow> dict list \<Rightarrow> error + dict list" where
  "extract_rows w [] results = Inr results"
| "extract_rows w (row # rows) results =
     (case extract_row w row of
        Inl e \<Rightarrow> Inl e
      | Inr d \<Rightarrow> extract_rows w rows (results @ [d]))"

subsection \<open>\<^verbatim>\<open>scrape_individual_tests\<close>\<close>

text \<open>
  One pass through the body of \<^verbatim>\<open>while True\<close>: it goes on with a new offset, leaves
  the loop at one of the two \<^verbatim>\<open>break\<close> statements (line 48: no rows; line 75: no next
  button), or raises.
\<close>

datatype stop = NoRows | NoNext

datatype step = Continue nat "dict list" | Break stop "dict list" | Raise error

definition loop_body :: "world \<Rightarrow> nat \<Rightarrow> dict list \<Rightarrow> step" where
  "loop_body w start results =
     (let url = page_url start in
      case fst (fetch_page (http_get w url) 3) of
        None \<Rightarrow> Continue (start + 12) results
      | Some html \<Rightarrow>
          if html = [] then Continue (start + 12) results
          else
            let soup = ([], html_parser w html);
                rows = select SEL_ROWS soup
            in if rows = [] then Break NoRows results
               else
                 (case extract_rows w rows results of
                    Inl e \<Rightarrow> Raise e
                  | Inr results' \<Rightarrow>
                      (case select_one SEL_NEXT soup of
                         None \<Rightarrow> Break NoNext results'
                       | Some next_btn \<Rightarrow> Continue (start + 12) results')))"

text \<open>
  The loop may run forever, so it is run for a number of passes: \<open>OutOfFuel\<close> says
  that the loop was still running after them. The first component lists the offsets
  of the passes made (the lines \<^verbatim>\<open>Scraping page start=...\<close> the script prints).
\<close>

datatype ending = Returns stop "dict list" | Raises error | OutOfFuel

fun walk :: "world \<Rightarrow> nat \<Rightarrow> nat \<Rightarrow> dict list \<Rightarrow> nat list \<times> ending" where
  "walk w 0 start results = ([], OutOfFuel)"
| "walk w (Suc fuel) start results =
     (case loop_body w start results of
        Continue start' results' \<Rightarrow>
          (start # fst (walk w fuel start' results'), snd (walk w fuel start' results'))
      | Break why results' \<Rightarrow> ([start], Returns why results')
      | Raise e \<Rightarrow> ([start], Raises e))"

definition scrape_individual_tests :: "world \<Rightarrow> nat \<Rightarrow> nat list \<times> ending" where
  "scrape_individual_tests w fuel = walk w fuel 0 []"

subsection \<open>The writer (lines 84 to 93)\<close>

text \<open>
  The document output is the list handed to \<^verbatim>\<open>json.dump\<close>, the table output the data
  frame handed to \<^verbatim>\<open>to_csv\<close>. A data frame built from a list of dictionaries has the
  keys met as its columns, in the order in which they are first met, and one row for
  each dictionary (a key a dictionary lacks gives an empty cell, \<open>PNone\<close> here); a
  frame built from the empty list has no column. \<^verbatim>\<open>df["testTypes"]\<close> is a KeyError
  without that column.
\<close>

record dataframe =
  columns :: "string list"
  rows :: "dict list"

definition DataFrame :: "dict list \<Rightarrow> dataframe" where
  "DataFrame data =
     (let cols = rev (remdups (rev (concat (map (map fst) data)))) in
      \<lparr>columns = cols,
       rows = map (\<lambda>d. map (\<lambda>c. (c, case map_of d c of None \<Rightarrow> PNone | Some v \<Rightarrow> v)) cols) data\<rparr>)"

text \<open>\<^verbatim>\<open>lambda x: ",".join(x)\<close>: a list of strings or a string can be joined.\<close>

definition join_cell :: "pyval \<Rightarrow> error + pyval" where
  "join_cell x =
     (case x of
        PList xs \<Rightarrow> Inr (PStr (join '','' xs))
      | PStr s \<Rightarrow> Inr (PStr (join '','' (map (\<lambda>c. [c]) s)))
      | PNone \<Rightarrow> Inl TypeError
      | PBool b \<Rightarrow> Inl TypeError)"

fun apply_join :: "string \<Rightarrow> dict list \<Rightarrow> error + dict list" where
  "apply_join col [] = Inr []"
| "apply_join col (r # rs) =
     (case map_of r col of
        None \<Rightarrow> Inl KeyError
      | Some x \<Rightarrow>
          (case join_cell x of
             Inl e \<Rightarrow> Inl e
           | Inr y \<Rightarrow>
               (case apply_join col rs of
                  Inl e \<Rightarrow> Inl e
                | Inr rs' \<Rightarrow> Inr (map (\<lambda>(k, v). if k = col then (k, y) else (k, v)) r # rs'))))"

definition flatten_test_types :: "dataframe \<Rightarrow> error + dataframe" where
  "flatten_test_types df =
     (if ''testTypes'' \<notin> set (columns df) then Inl KeyError
      else
        (case apply_join ''testTypes'' (rows df) of
           Inl e \<Rightarrow> Inl e
         | Inr rs \<Rightarrow> Inr (df\<lparr>rows := rs\<rparr>)))"

text \<open>
  The main block: the JSON document is written first; the table is written only when
  the frame could be built and flattened.
\<close>

definition write_outputs :: "dict list \<Rightarrow> dict list \<times> (error + dataframe)" where
  "write_outputs data = (data, flatten_test_types (DataFrame data))"

subsection \<open>Notions of the specification\<close>

text \<open>
  The number of consecutive transport failures a fetch meets: the failures among the
  attempts \<open>k\<close>, \<open>k + 1\<close>, ... before the first response, looking at \<open>b\<close> attempts
  at most.
\<close>

fun leading_from :: "(nat \<Rightarrow> outcome) \<Rightarrow> nat \<Rightarrow> nat \<Rightarrow> nat" where
  "leading_from get k 0 = 0"
| "leading_from get k (Suc b) =
     (case get k of
        RequestException \<Rightarrow> Suc (leading_from get (Suc k) b)
      | Text t \<Rightarrow> 0)"

definition leading_failures :: "(nat \<Rightarrow> outcome) \<Rightarrow> nat \<Rightarrow> nat" where
  "leading_failures get b = leading_from get 0 b"

fun response_text :: "outcome \<Rightarrow> string option" where
  "response_text (Text t) = Some t"
| "response_text RequestException = None"




text \<open>
  The keys of a record, in the order of the dictionary of lines 64 to 71, and a record
  with its \<open>testTypes\<close> joined by commas.
\<close>

definition record_keys :: "string list" where
  "record_keys = [''entityId'', ''name'', ''url'', ''remoteTesting'', ''adaptiveIrt'', ''testTypes'']"

definition flatten_record :: "dict \<Rightarrow> dict" where
  "flatten_record d =
     map (\<lambda>(k, v). if k = ''testTypes''
                    then (k, case v of PList xs \<Rightarrow> PStr (join '','' xs) | _ \<Rightarrow> v)
                    else (k, v)) d"

text \<open>
  What the body of the row loop needs of a row: the title link, with an href that
  \<^verbatim>\<open>urljoin\<close> accepts, and two general cells.
\<close>

definition well_formed_row :: "world \<Rightarrow> tag \<Rightarrow> bool" where
  "well_formed_row w row =
     (case select_one SEL_TITLE row of
        None \<Rightarrow> False
      | Some title_tag \<Rightarrow>
          (case tag_get title_tag ''href'' of
             None \<Rightarrow> False
           | Some href \<Rightarrow> urljoin w BASE_URL href \<noteq> None) \<and>
          2 \<le> length (select SEL_GENERAL row))"

text \<open>
  A page the walker skips: \<^verbatim>\<open>not html\<close> holds for None and for the empty string.
\<close>

definition skipped :: "world \<Rightarrow> nat \<Rightarrow> bool" where
  "skipped w start =
     (case fst (fetch_page (http_get w (page_url start)) 3) of
        None \<Rightarrow> True
      | Some html \<Rightarrow> html = [])"

subsection \<open>Example markup and environments\<close>

text \<open>
  Catalog markup of the shape the selectors expect: a row with its title cell, two
  general cells (with or without the mark of class \<^verbatim>\<open>-yes\<close>) and its keys; a page with
  its rows and, when there are more pages, the pagination item of class \<^verbatim>\<open>-next\<close>.
\<close>

definition yes_mark :: node where
  "yes_mark = Element ''span'' [''catalogue__circle'', ''-yes''] [] []"

definition general_cell :: "bool \<Rightarrow> node" where
  "general_cell b =
     Element ''td'' [''custom__table-heading__general''] [] (if b then [yes_mark] else [])"

definition key_span :: "string \<Rightarrow> node" where
  "key_span k = Element ''span'' [''product-catalogue__key''] [] [NavigableString k]"

definition title_cell :: "string \<Rightarrow> string \<Rightarrow> node" where
  "title_cell title href =
     Element ''td'' [''custom__table-heading__title''] []
       [Element ''a'' [] [(''href'', href)] [NavigableString title]]"

definition catalog_row :: "string \<Rightarrow> string \<Rightarrow> string \<Rightarrow> bool \<Rightarrow> bool \<Rightarrow> string list \<Rightarrow> node" where
  "catalog_row eid title href remote adaptive keys =
     Element ''tr'' [] [(''data-entity-id'', eid)]
       [title_cell title href, general_cell remote, general_cell adaptive,
        Element ''td'' [''product-catalogue__keys''] [] (map key_span keys)]"

definition next_control :: node where
  "next_control =
     Element ''ul'' [''pagination''] []
       [Element ''li'' [''pagination__item'', ''-next''] []
          [Element ''a'' [] [(''href'', ''?start=12&type=1'')] [NavigableString ''Next'']]]"

definition catalog_page :: "node list \<Rightarrow> bool \<Rightarrow> node" where
  "catalog_page trs has_next =
     Element ''[document]'' [] []
       (Element ''table'' [] [] trs # (if has_next then [next_control] else []))"

definition row_a :: node where
  "row_a = catalog_row ''101'' '' Verbal Reasoning '' ''/view/verbal/'' True False [''A'', ''B'', ''A'']"

definition row_b :: node where
  "row_b = catalog_row ''102'' ''Numerical Reasoning'' ''/view/numerical/'' False True []"

text \<open>
  A row whose title link holds only whitespace (a no-break space and a space), a row
  whose title link has the href \<^verbatim>\<open>mailto:a@b\<close> after a space, and a row without general
  cells.
\<close>

definition row_blank :: node where
  "row_blank = catalog_row ''103'' [CHR 0xA0, CHR 0x20] ''/view/untitled/'' False False [''K'']"

definition row_mail :: node where
  "row_mail = catalog_row ''105'' ''Contact'' '' mailto:a@b'' False False []"

definition row_short :: node where
  "row_short = Element ''tr'' [] [(''data-entity-id'', ''104'')] [title_cell ''Short'' ''/view/short/'']"

text \<open>A row of a page as \<^verbatim>\<open>soup.select\<close> returns it: below the table, below the document.\<close>

definition row_in_page :: "node list \<Rightarrow> bool \<Rightarrow> node \<Rightarrow> tag" where
  "row_in_page trs has_next r = ([Element ''table'' [] [] trs, catalog_page trs has_next], r)"

text \<open>The dictionaries the script builds for \<open>row_a\<close> and \<open>row_b\<close>.\<close>

definition record_a :: dict where
  "record_a = [(''entityId'', PStr ''101''), (''name'', PStr ''Verbal Reasoning''),
               (''url'', PStr ''https://www.shl.com/view/verbal/''),
               (''remoteTesting'', PBool True), (''adaptiveIrt'', PBool False),
               (''testTypes'', PList [''A'', ''B'', ''A''])]"

definition record_b :: dict where
  "record_b = [(''entityId'', PStr ''102''), (''name'', PStr ''Numerical Reasoning''),
               (''url'', PStr ''https://www.shl.com/view/numerical/''),
               (''remoteTesting'', PBool False), (''adaptiveIrt'', PBool True),
               (''testTypes'', PList [])]"

text \<open>A resolver for hrefs that start with a slash.\<close>

definition simple_join :: "string \<Rightarrow> string \<Rightarrow> string option" where
  "simple_join base url = Some (base @ url)"


text \<open>
  The parser of the examples, on the texts the example servers send: a page with the
  rows \<open>row_a\<close> and \<open>row_b\<close>, with or without a next button, a page without rows, a
  page with the rows \<open>row_blank\<close> and \<open>row_mail\<close>, and a page with the rows \<open>row_a\<close>
  and \<open>row_short\<close>. Any other text is a document of that one string.
\<close>

definition example_parser :: "string \<Rightarrow> node" where
  "example_parser html =
     (if html = ''two rows, last page'' then catalog_page [row_a, row_b] False
      else if html = ''two rows, more pages'' then catalog_page [row_a, row_b] True
      else if html = ''no rows'' then catalog_page [] False
      else if html = ''unchecked rows'' then catalog_page [row_blank, row_mail] False
      else if html = ''short row'' then catalog_page [row_a, row_short] True
      else Element ''[document]'' [] [] (if html = [] then [] else [NavigableString html]))"

text \<open>A catalog of one page with two rows and no next button.\<close>

definition one_page_world :: world where
  "one_page_world =
     \<lparr>http_get = (\<lambda>url k. if url = page_url 0 then Text ''two rows, last page'' else Text ''no rows''),
      html_parser = example_parser, urljoin = simple_join\<rparr>"

text \<open>A catalog of one page with a next button; the page after it has no rows.\<close>

definition two_page_world :: world where
  "two_page_world =
     \<lparr>http_get = (\<lambda>url k. if url = page_url 0 then Text ''two rows, more pages'' else Text ''no rows''),
      html_parser = example_parser, urljoin = simple_join\<rparr>"

text \<open>
  The first page cannot be fetched, the second has two rows and a next button, the
  third has no rows.
\<close>

definition flaky_world :: world where
  "flaky_world =
     \<lparr>http_get = (\<lambda>url k. if url = page_url 0 then RequestException
                         else if url = page_url 12 then Text ''two rows, more pages''
                         else Text ''no rows''),
      html_parser = example_parser, urljoin = simple_join\<rparr>"

text \<open>The first page is fine and has a next button; every later request fails.\<close>

definition failing_world :: world where
  "failing_world =
     \<lparr>http_get = (\<lambda>url k. if url = page_url 0 then Text ''two rows, more pages''
                         else RequestException),
      html_parser = example_parser, urljoin = simple_join\<rparr>"

text \<open>Every request is answered at once, with an empty body (as a status 204 is).\<close>

definition blank_world :: world where
  "blank_world =
     \<lparr>http_get = (\<lambda>url k. Text []), html_parser = example_parser, urljoin = simple_join\<rparr>"

text \<open>Every request is answered at once, with a body of one space.\<close>

definition space_world :: world where
  "space_world =
     \<lparr>http_get = (\<lambda>url k. Text '' ''), html_parser = example_parser, urljoin = simple_join\<rparr>"


text \<open>The first page has a good row, then the row without general cells.\<close>

definition malformed_world :: world where
  "malformed_world =
     \<lparr>http_get = (\<lambda>url k. if url = page_url 0 then Text ''short row'' else Text ''no rows''),
      html_parser = example_parser, urljoin = simple_join\<rparr>"

text \<open>A catalog without entries: every page is fetched and has no rows.\<close>

definition empty_catalog_world :: world where
  "empty_catalog_world =
     \<lparr>http_get = (\<lambda>url k. Text ''no rows''), html_parser = example_parser, urljoin = simple_join\<rparr>"

section \<open>Properties\<close>

subsection \<open>The page fetcher\<close>

lemma leading_from_le: "leading_from get k b \<le> b"
  by (induction b arbitrary: k) (auto split: outcome.splits)

lemma leading_from_stops:
  "leading_from get k b < b \<Longrightarrow> get (k + leading_from get k b) \<noteq> RequestException"
proof (induction b arbitrary: k)
  case 0
  then show ?case by simp
next
  case (Suc b)
  show ?case
  proof (cases "get k")
    case (Text t)
    then show ?thesis by simp
  next
    case RequestException
    then show ?thesis using Suc.IH [of "Suc k"] Suc.prems by simp
  qed
qed

lemma leading_from_add:
  "leading_from get k (n + m) =
     (if leading_from get k n < n then leading_from get k n
      else n + leading_from get (k + n) m)"
  by (induction n arbitrary: k) (auto split: outcome.splits)

text \<open>What the retry loop returns from attempt \<open>a\<close> on, with \<open>n\<close> attempts left.\<close>

lemma fetch_loop_spec:
  "fetch_loop get (a + n) a =
     (if leading_from get a n < n
      then (response_text (get (a + leading_from get a n)), a + leading_from get a n + 1)
      else (None, a + n))"
proof (induction n arbitrary: a)
  case 0
  show ?case by (simp add: fetch_loop.simps)
next
  case (Suc n)
  have step: "fetch_loop get (a + Suc n) a =
      (case get a of Text t \<Rightarrow> (Some t, a + 1)
       | RequestException \<Rightarrow> fetch_loop get (Suc a + n) (Suc a))"
    by (subst fetch_loop.simps) (simp split: outcome.splits)
  show ?case
  proof (cases "get a")
    case (Text t)
    then show ?thesis using step by simp
  next
    case RequestException
    then show ?thesis using step Suc.IH [of "Suc a"] by simp
  qed
qed

lemma fetch_page_spec:
  "fetch_page get r =
     (if leading_failures get r < r
      then (response_text (get (leading_failures get r)), leading_failures get r + 1)
      else (None, r))"
  using fetch_loop_spec [of get 0 r] by (simp add: fetch_page_def leading_failures_def)

lemma leading_failures_beyond:
  "r \<le> b \<Longrightarrow> leading_failures get b =
     (if leading_failures get r < r then leading_failures get r
      else r + leading_from get r (b - r))"
  using leading_from_add [of get 0 r "b - r"] by (simp add: leading_failures_def)

text \<open>
  C3. Whatever the transport does, \<^verbatim>\<open>fetch_page\<close> with its budget of 3 makes exactly
  \<open>min (1 + failures) 3\<close> attempts, where \<open>failures\<close> is the number of consecutive
  transport failures it meets from the first attempt on (counted over any \<open>b \<ge> 3\<close>
  attempts). With fewer than 3 failures it returns the text of the first attempt that
  succeeds; with 3 or more it returns None. The result is a value in both cases: no
  transport failure leaves the function as an exception.
\<close>

theorem fetch_page_retry_budget:
  assumes "3 \<le> b"
  shows "snd (fetch_page get 3) = min (1 + leading_failures get b) 3 \<and>
         fst (fetch_page get 3) =
           (if leading_failures get b < 3 then response_text (get (leading_failures get b))
            else None) \<and>
         (leading_failures get b < 3 \<longrightarrow> fst (fetch_page get 3) \<noteq> None)"
proof -
  have le: "leading_failures get 3 \<le> 3"
    by (simp add: leading_failures_def leading_from_le)
  show ?thesis
  proof (cases "leading_failures get 3 < 3")
    case True
    then have eq: "leading_failures get b = leading_failures get 3"
      using leading_failures_beyond [OF assms, of get] by simp
    have "get (leading_failures get 3) \<noteq> RequestException"
      using leading_from_stops [of get 0 3] True by (simp add: leading_failures_def)
    then have "response_text (get (leading_failures get 3)) \<noteq> None"
      by (cases "get (leading_failures get 3)") auto
    then show ?thesis using True eq by (simp add: fetch_page_spec)
  next
    case False
    then have "3 \<le> leading_failures get b"
      using leading_failures_beyond [OF assms, of get] by simp
    then show ?thesis using False by (simp add: fetch_page_spec)
  qed
qed

text \<open>
  Two fetches: two failures and then a page (3 attempts, the page is returned), and a
  transport that always fails (3 attempts, None).
\<close>

theorem fetch_page_retry_budget_witness:
  "snd (fetch_page (\<lambda>k. if k < 2 then RequestException else Text ''page'') 3) = 3 \<and>
   fst (fetch_page (\<lambda>k. if k < 2 then RequestException else Text ''page'') 3) = Some ''page'' \<and>
   leading_failures (\<lambda>k. if k < 2 then RequestException else Text ''page'') 7 = 2 \<and>
   snd (fetch_page (\<lambda>k. RequestException) 3) = 3 \<and>
   fst (fetch_page (\<lambda>k. RequestException) 3) = None \<and>
   leading_failures (\<lambda>k. RequestException) 7 = 7"
proof -
  have h: "(3::nat) \<le> 7" by simp
  have a: "leading_failures (\<lambda>k. if k < 2 then RequestException else Text ''page'') 7 = 2"
    by code_simp
  have b: "leading_failures (\<lambda>k. RequestException) 7 = 7"
    by code_simp
  show ?thesis
    using fetch_page_retry_budget [OF h, of "\<lambda>k. if k < 2 then RequestException else Text ''page''"]
      fetch_page_retry_budget [OF h, of "\<lambda>k. RequestException"] a b
    by simp
qed

subsection \<open>The catalog walker: offsets and termination\<close>

lemma loop_body_skipped: "skipped w s \<Longrightarrow> loop_body w s rs = Continue (s + 12) rs"
  by (auto simp: skipped_def loop_body_def split: option.splits)

lemma loop_body_Continue: "loop_body w s rs = Continue s' rs' \<Longrightarrow> s' = s + 12"
  by (auto simp: loop_body_def Let_def split: option.splits if_splits sum.splits)

lemma map_upt_shift: "map (\<lambda>i. s + 12 * i) [0..<Suc n] = s # map (\<lambda>i. (s + 12) + 12 * i) [0..<n]"
proof -
  have "[0..<Suc n] = 0 # map Suc [0..<n]"
    by (simp add: upt_conv_Cons map_Suc_upt del: upt_Suc)
  then show ?thesis by (simp add: comp_def del: upt_Suc)
qed

lemma walk_offsets:
  "fst (walk w n s rs) = map (\<lambda>i. s + 12 * i) [0..<length (fst (walk w n s rs))]"
proof (induction n arbitrary: s rs)
  case 0
  show ?case by simp
next
  case (Suc n)
  show ?case
  proof (cases "loop_body w s rs")
    case (Continue s' rs')
    then have s': "s' = s + 12" by (rule loop_body_Continue)
    show ?thesis
      using Continue s' Suc.IH [of "s + 12" rs'] map_upt_shift [of s "length (fst (walk w n (s + 12) rs'))"]
      by (simp del: upt_Suc)
  next
    case (Break why rs')
    then show ?thesis by simp
  next
    case (Raise e)
    then show ?thesis by simp
  qed
qed

lemma walk_skipping:
  "(\<And>j. skipped w (s + 12 * j)) \<Longrightarrow> walk w n s rs = (map (\<lambda>i. s + 12 * i) [0..<n], OutOfFuel)"
proof (induction n arbitrary: s)
  case 0
  show ?case by simp
next
  case (Suc n)
  have here: "loop_body w s rs = Continue (s + 12) rs"
    using Suc.prems [of 0] by (simp add: loop_body_skipped)
  have "\<And>j. skipped w (s + 12 + 12 * j)"
    using Suc.prems [of "Suc j" for j] by (simp add: algebra_simps)
  then have "walk w n (s + 12) rs = (map (\<lambda>i. s + 12 + 12 * i) [0..<n], OutOfFuel)"
    by (rule Suc.IH)
  then show ?case using here map_upt_shift [of s n] by (simp del: upt_Suc)
qed

lemma walk_running_then_skipping:
  "snd (walk w k s rs) = OutOfFuel \<Longrightarrow> (\<And>j. skipped w (s + 12 * (k + j))) \<Longrightarrow>
   snd (walk w (k + n) s rs) = OutOfFuel"
proof (induction k arbitrary: s rs)
  case 0
  then show ?case using walk_skipping [of w s n rs] by simp
next
  case (Suc k)
  show ?case
  proof (cases "loop_body w s rs")
    case (Continue s' rs')
    then have s': "s' = s + 12" by (rule loop_body_Continue)
    have run: "snd (walk w k (s + 12) rs') = OutOfFuel"
      using Suc.prems(1) Continue s' by simp
    have "\<And>j. skipped w (s + 12 + 12 * (k + j))"
      using Suc.prems(2) [of j for j] by (simp add: algebra_simps)
    then have "snd (walk w (k + n) (s + 12) rs') = OutOfFuel"
      using run by (rule Suc.IH [rotated])
    then show ?thesis using Continue s' by simp
  next
    case (Break why rs')
    then show ?thesis using Suc.prems(1) by simp
  next
    case (Raise e)
    then show ?thesis using Suc.prems(1) by simp
  qed
qed

lemma walk_ends_at_break:
  "loop_body w (s + 12 * k) rs0 = Break why rs0' \<Longrightarrow> (\<And>rs. \<exists>rs'. loop_body w (s + 12 * k) rs = Break why rs') \<Longrightarrow>
   snd (walk w (Suc k + m) s rs) \<noteq> OutOfFuel \<and> length (fst (walk w (Suc k + m) s rs)) \<le> Suc k"
proof (induction k arbitrary: s rs)
  case 0
  then obtain rs' where "loop_body w s rs = Break why rs'" by (metis add.right_neutral mult_0_right)
  then show ?case by simp
next
  case (Suc k)
  show ?case
  proof (cases "loop_body w s rs")
    case (Continue s' rs')
    then have s': "s' = s + 12" by (rule loop_body_Continue)
    have a: "loop_body w (s + 12 + 12 * k) rs0 = Break why rs0'"
      using Suc.prems(1) by (simp add: algebra_simps)
    have b: "\<And>rs. \<exists>rs'. loop_body w (s + 12 + 12 * k) rs = Break why rs'"
      using Suc.prems(2) by (simp add: algebra_simps)
    show ?thesis using Continue s' Suc.IH [OF a b, of rs'] by simp
  next
    case (Break why rs')
    then show ?thesis by simp
  next
    case (Raise e)
    then show ?thesis by simp
  qed
qed

text \<open>A walk that has ended is not changed by more fuel.\<close>

lemma walk_fuel_mono:
  "snd (walk w n s rs) \<noteq> OutOfFuel \<Longrightarrow> walk w (n + m) s rs = walk w n s rs"
proof (induction n arbitrary: s rs)
  case 0
  then show ?case by simp
next
  case (Suc n)
  show ?case
  proof (cases "loop_body w s rs")
    case (Continue s' rs')
    then have "snd (walk w n s' rs') \<noteq> OutOfFuel"
      using Suc.prems by simp
    then have "walk w (n + m) s' rs' = walk w n s' rs'"
      by (rule Suc.IH)
    then show ?thesis using Continue by simp
  next
    case (Break why rs')
    then show ?thesis by simp
  next
    case (Raise e)
    then show ?thesis by simp
  qed
qed

text \<open>The URL of the first page differs from the URL of every other page.\<close>

lemma str_nat_nonempty: "str_nat n \<noteq> []"
  by (subst str_nat.simps) simp

lemma digit_char_zero: "n < 10 \<Longrightarrow> digit_char n = digit_char 0 \<Longrightarrow> n = 0"
proof -
  assume lt: "n < 10" and eq: "digit_char n = digit_char 0"
  have "(of_char (digit_char n) :: nat) = of_char (digit_char 0)"
    using eq by simp
  then show "n = 0" using lt by (simp add: digit_char_def)
qed

lemma str_nat_zero: "str_nat n = str_nat 0 \<Longrightarrow> n = 0"
proof (cases "n < 10")
  case True
  assume "str_nat n = str_nat 0"
  then have "digit_char n = digit_char 0" using True by (simp add: str_nat.simps)
  then show ?thesis using True by (rule digit_char_zero [rotated])
next
  case False
  assume eq: "str_nat n = str_nat 0"
  have "length (str_nat n) = Suc (length (str_nat (n div 10)))"
    using False by (subst str_nat.simps) simp
  moreover have "length (str_nat (n div 10)) \<noteq> 0" using str_nat_nonempty by simp
  moreover have "length (str_nat 0) = 1" by (simp add: str_nat.simps)
  ultimately show ?thesis using eq by simp
qed

lemma page_url_zero: "page_url n = page_url 0 \<Longrightarrow> n = 0"
  by (rule str_nat_zero) (simp add: page_url_def)

lemma loop_body_no_rows:
  "fst (fetch_page (http_get w (page_url s)) 3) = Some html \<Longrightarrow> html \<noteq> [] \<Longrightarrow>
   select SEL_ROWS ([], html_parser w html) = [] \<Longrightarrow> loop_body w s rs = Break NoRows rs"
  by (simp add: loop_body_def)

text \<open>
  C4. The passes of a walk, however long it is run, are made at the offsets 0, 12, 24,
  ...: the offset starts at 0 and grows by exactly 12 from one pass to the next. A
  pass whose fetch failed goes on at the offset plus 12 with the results unchanged.
\<close>

theorem offsets_advance_by_page_size:
  "fst (scrape_individual_tests w n) =
     map (\<lambda>i. 12 * i) [0..<length (fst (scrape_individual_tests w n))] \<and>
   (fst (fetch_page (http_get w (page_url start)) 3) = None \<longrightarrow>
      loop_body w start results = Continue (start + 12) results)"
  using walk_offsets [of w n 0 "[]"]
  by (simp add: scrape_individual_tests_def loop_body_skipped skipped_def)

text \<open>
  The first page fails three times, the second has two rows and a next button, the
  third has no rows: the passes are at 0, 12 and 24.
\<close>

theorem offsets_advance_by_page_size_witness:
  "fst (scrape_individual_tests flaky_world 5) = [0, 12, 24] \<and>
   fst (fetch_page (http_get flaky_world (page_url 0)) 3) = None \<and>
   loop_body flaky_world 0 [] = Continue 12 []"
proof -
  have v: "length (fst (scrape_individual_tests flaky_world 5)) = 3"
    by code_simp
  have f: "fst (fetch_page (http_get flaky_world (page_url 0)) 3) = None"
    by code_simp
  have u: "[0..<3] = [0, 1, 2]"
    by (simp add: upt_rec)
  show ?thesis
    using offsets_advance_by_page_size [of flaky_world 5 0 "[]"] v f u by simp
qed

text \<open>
  C10. If the walk is still running when it reaches the offset \<open>12 * k\<close> and the fetch
  fails at that offset and at every later one, the walk is still running after any
  number of passes: it never terminates, although the offset advances at every pass.
\<close>

theorem permanent_failure_never_terminates:
  assumes "snd (scrape_individual_tests w k) = OutOfFuel"
    and "\<And>j. fst (fetch_page (http_get w (page_url (12 * (k + j)))) 3) = None"
  shows "snd (scrape_individual_tests w (k + n)) = OutOfFuel"
proof -
  have "\<And>j. skipped w (0 + 12 * (k + j))"
    using assms(2) by (simp add: skipped_def)
  then show ?thesis
    using assms(1) walk_running_then_skipping [of w k 0 "[]" n]
    by (simp add: scrape_individual_tests_def)
qed

text \<open>
  The first page has rows and a next button, every later request fails: the walk is
  running after 1 pass and after 7.
\<close>

theorem permanent_failure_never_terminates_witness:
  "snd (scrape_individual_tests failing_world 1) = OutOfFuel \<and>
   (\<forall>j. fst (fetch_page (http_get failing_world (page_url (12 * (1 + j)))) 3) = None) \<and>
   snd (scrape_individual_tests failing_world (1 + 6)) = OutOfFuel"
proof -
  have run: "snd (scrape_individual_tests failing_world 1) = OutOfFuel"
    by code_simp
  have fail: "fst (fetch_page (http_get failing_world (page_url (12 * (1 + j)))) 3) = None" for j
  proof -
    have "page_url (12 * (1 + j)) \<noteq> page_url 0"
      using page_url_zero [of "12 * (1 + j)"] by auto
    then show ?thesis
      by (simp add: failing_world_def fetch_page_def fetch_loop.simps)
  qed
  show ?thesis
    using permanent_failure_never_terminates [of failing_world 1 6, OF run fail] run fail by simp
qed

text \<open>
  A page that is fetched with a body that is not empty and on which the row selector
  matches nothing ends the walk: if that page is at the offset \<open>12 * k\<close>, the pass at
  that offset leaves the loop at the zero-rows check, whatever the pagination markup of
  the page is, and the walk ends within \<open>k + 1\<close> passes (there, or earlier).
\<close>

theorem zero_rows_ends_walk:
  assumes "fst (fetch_page (http_get w (page_url (12 * k))) 3) = Some html"
    and "html \<noteq> []"
    and "select SEL_ROWS ([], html_parser w html) = []"
  shows "loop_body w (12 * k) results = Break NoRows results \<and>
         snd (scrape_individual_tests w (Suc k + m)) \<noteq> OutOfFuel \<and>
         length (fst (scrape_individual_tests w (Suc k + m))) \<le> Suc k"
proof -
  have here: "loop_body w (0 + 12 * k) rs = Break NoRows rs" for rs
    using assms by (simp add: loop_body_no_rows)
  then have "\<exists>rs'. loop_body w (0 + 12 * k) rs = Break NoRows rs'" for rs
    by blast
  then show ?thesis
    using here [of results] walk_ends_at_break [where w = w and s = 0 and k = k and rs0 = "[]" and why = NoRows
        and rs0' = "[]" and rs = "[]" and m = m] here [of "[]"]
    by (simp add: scrape_individual_tests_def)
qed

text \<open>The second page of the catalog has no rows: the walk ends within 2 passes.\<close>

theorem zero_rows_ends_walk_example:
  "loop_body two_page_world (12 * 1) [] = Break NoRows [] \<and>
   snd (scrape_individual_tests two_page_world (Suc 1 + 3)) \<noteq> OutOfFuel \<and>
   length (fst (scrape_individual_tests two_page_world (Suc 1 + 3))) \<le> Suc 1"
proof -
  have a: "fst (fetch_page (http_get two_page_world (page_url (12 * 1))) 3) = Some ''no rows''"
    by code_simp
  have b: "''no rows'' \<noteq> []"
    by simp
  have c: "select SEL_ROWS ([], html_parser two_page_world ''no rows'') = []"
    by code_simp
  show ?thesis
    using zero_rows_ends_walk [OF a b c, of "[]" 3] by simp
qed

text \<open>
  C5. A walk should end in finitely many steps once a page is fetched on which the
  row selector matches nothing. It does not when the bodies are empty: each page is
  fetched at the first attempt and has no row, yet \<^verbatim>\<open>if not html\<close> holds for the empty
  text as it does for None, the pass is skipped as after a failed fetch, and the walk
  is still running after any number of passes. A body of one space, which has no row
  either, ends the walk at its first pass.
\<close>

theorem empty_body_walk_never_ends:
  "fetch_page (http_get blank_world (page_url 0)) 3 = (Some [], 1) \<and>
   select SEL_ROWS ([], html_parser blank_world []) = [] \<and>
   (\<forall>n. scrape_individual_tests blank_world n = (map (\<lambda>i. 12 * i) [0..<n], OutOfFuel)) \<and>
   scrape_individual_tests space_world 3 = ([0], Returns NoRows [])"
proof -
  have a: "fetch_page (http_get blank_world (page_url 0)) 3 = (Some [], 1)"
    by (simp add: blank_world_def fetch_page_def fetch_loop.simps)
  have b: "select SEL_ROWS ([], html_parser blank_world []) = []"
    by code_simp
  have "skipped blank_world s" for s
    by (simp add: skipped_def blank_world_def fetch_page_def fetch_loop.simps)
  then have c: "scrape_individual_tests blank_world n = (map (\<lambda>i. 12 * i) [0..<n], OutOfFuel)" for n
    using walk_skipping [of blank_world 0 n "[]"] by (simp add: scrape_individual_tests_def)
  have d: "scrape_individual_tests space_world 3 = ([0], Returns NoRows [])"
    by code_simp
  show ?thesis using a b c d by simp
qed

text \<open>
  C2, as stated, fails on the catalog of one page with two rows and no next button:
  the walk makes its only pass at offset 0 and leaves the loop there at the check of
  the next button (line 75), which is therefore reachable; offset 12 is never
  requested, and the zero-rows check never fires.
\<close>

theorem single_page_counterexample:
  "select_one SEL_NEXT ([], html_parser one_page_world ''two rows, last page'') = None \<and>
   length (select SEL_ROWS ([], html_parser one_page_world ''two rows, last page'')) = 2 \<and>
   scrape_individual_tests one_page_world 5 = ([0], Returns NoNext [record_a, record_b])"
  by code_simp

text \<open>
  C2, amended. When the page at offset 0 has exactly two rows, both well formed, and
  no next button, the walk makes one pass, at offset 0, returns the two records in
  row order, and ends at the check of the next button on that page.
\<close>

theorem single_page_walk:
  assumes "fst (fetch_page (http_get w (page_url 0)) 3) = Some html"
    and "html \<noteq> []"
    and "select SEL_ROWS ([], html_parser w html) = [r1, r2]"
    and "extract_row w r1 = Inr d1"
    and "extract_row w r2 = Inr d2"
    and "select_one SEL_NEXT ([], html_parser w html) = None"
  shows "scrape_individual_tests w (Suc n) = ([0], Returns NoNext [d1, d2])"
  using assms by (simp add: scrape_individual_tests_def loop_body_def)

text \<open>The catalog of one page: the two records of its rows.\<close>

theorem single_page_walk_witness:
  "scrape_individual_tests one_page_world (Suc 3) = ([0], Returns NoNext [record_a, record_b])"
proof -
  have a: "fst (fetch_page (http_get one_page_world (page_url 0)) 3) = Some ''two rows, last page''"
    by code_simp
  have b: "''two rows, last page'' \<noteq> []"
    by simp
  have c: "select SEL_ROWS ([], html_parser one_page_world ''two rows, last page'') =
      [row_in_page [row_a, row_b] False row_a, row_in_page [row_a, row_b] False row_b]"
    by code_simp
  have d: "extract_row one_page_world (row_in_page [row_a, row_b] False row_a) = Inr record_a"
    by code_simp
  have e: "extract_row one_page_world (row_in_page [row_a, row_b] False row_b) = Inr record_b"
    by code_simp
  have f: "select_one SEL_NEXT ([], html_parser one_page_world ''two rows, last page'') = None"
    by code_simp
  show ?thesis
    by (rule single_page_walk [OF a b c d e f])
qed

subsection \<open>The rows of a run\<close>



lemma extract_row_Inr:
  assumes "extract_row w row = Inr d"
  shows "\<exists>title_tag href link c0 c1 cols.
           select_one SEL_TITLE row = Some title_tag \<and>
           tag_get title_tag ''href'' = Some href \<and>
           urljoin w BASE_URL href = Some link \<and>
           select SEL_GENERAL row = c0 # c1 # cols \<and>
           d = [(''entityId'', opt_str (tag_get row ''data-entity-id'')),
                (''name'', PStr (strip (tag_text title_tag))),
                (''url'', PStr link),
                (''remoteTesting'', PBool (select_one SEL_YES c0 \<noteq> None)),
                (''adaptiveIrt'', PBool (select_one SEL_YES c1 \<noteq> None)),
                (''testTypes'', PList (map (\<lambda>t. strip (tag_text t)) (select SEL_KEY row)))]"
  using assms
  by (auto simp: extract_row_def Let_def split: option.splits list.splits)





text \<open>The no-break space and the next-line character are stripped as the space is.\<close>

lemma strip_beyond_ascii: "strip [CHR 0x85, CHR ''P'', CHR 0xA0] = ''P'' \<and> strip [CHR 0xA0] = []"
  by (simp add: strip_def isspace_def)




subsection \<open>Failures of the row loop\<close>

lemma extract_row_fails_iff: "isl (extract_row w row) = (\<not> well_formed_row w row)"
  by (auto simp: extract_row_def well_formed_row_def Let_def split: option.splits list.splits)

lemma extract_rows_fails:
  "row \<in> set trs \<Longrightarrow> isl (extract_row w row) \<Longrightarrow> isl (extract_rows w trs rs)"
  by (induction trs arbitrary: rs) (auto split: sum.splits)

text \<open>
  C6, as stated, fails on a row that has its title cell and link but no general cell:
  \<^verbatim>\<open>cols[0]\<close> raises an IndexError.
\<close>

theorem missing_general_cells_counterexample:
  "select_one SEL_TITLE (row_in_page [row_a, row_short] True row_short) \<noteq> None \<and>
   extract_row malformed_world (row_in_page [row_a, row_short] True row_short) = Inl IndexError"
  by code_simp

text \<open>
  C6, amended. The body of the row loop fails exactly on a row that is not well
  formed: without title link, with a title link without href or with an href that
  \<^verbatim>\<open>urljoin\<close> rejects, or with fewer than two general cells. Such a row on a fetched
  page is fatal: the pass raises and the walk ends with the exception, without
  results. A page whose fetch failed is skipped instead: the walk goes on at the next
  offset with its results.
\<close>

theorem row_failure_is_fatal:
  "isl (extract_row w row) = (\<not> well_formed_row w row) \<and>
   (fst (fetch_page (http_get w (page_url start)) 3) = Some html \<and> html \<noteq> [] \<and>
    row \<in> set (select SEL_ROWS ([], html_parser w html)) \<and> \<not> well_formed_row w row \<longrightarrow>
      (\<exists>e. walk w (Suc n) start results = ([start], Raises e))) \<and>
   (fst (fetch_page (http_get w (page_url start)) 3) = None \<longrightarrow>
      walk w (Suc n) start results =
        (start # fst (walk w n (start + 12) results), snd (walk w n (start + 12) results)))"
proof -
  have fatal: "\<exists>e. walk w (Suc n) start results = ([start], Raises e)"
    if f: "fst (fetch_page (http_get w (page_url start)) 3) = Some html" and h: "html \<noteq> []"
      and r: "row \<in> set (select SEL_ROWS ([], html_parser w html))" and b: "\<not> well_formed_row w row"
  proof -
    have "isl (extract_rows w (select SEL_ROWS ([], html_parser w html)) results)"
      using r b by (simp add: extract_rows_fails extract_row_fails_iff)
    then obtain e where "extract_rows w (select SEL_ROWS ([], html_parser w html)) results = Inl e"
      by (auto simp: isl_def)
    moreover have "select SEL_ROWS ([], html_parser w html) \<noteq> []"
      using r by auto
    ultimately have "loop_body w start results = Raise e"
      using f h by (simp add: loop_body_def)
    then show ?thesis by simp
  qed
  have skip: "walk w (Suc n) start results =
        (start # fst (walk w n (start + 12) results), snd (walk w n (start + 12) results))"
    if "fst (fetch_page (http_get w (page_url start)) 3) = None"
    using that by (simp add: loop_body_skipped skipped_def)
  show ?thesis using fatal skip extract_row_fails_iff by blast
qed

text \<open>
  A page with a good row and then a row without general cells: the walk raises
  IndexError. A page that cannot be fetched: the walk goes on.
\<close>

theorem row_failure_is_fatal_witness:
  "isl (extract_row malformed_world (row_in_page [row_a, row_short] True row_short)) \<and>
   walk malformed_world (Suc 2) 0 [] = ([0], Raises IndexError) \<and>
   walk flaky_world (Suc 0) 0 [] = ([0], OutOfFuel)"
proof -
  have f: "fst (fetch_page (http_get malformed_world (page_url 0)) 3) = Some ''short row''"
    by code_simp
  have h: "''short row'' \<noteq> []"
    by simp
  have r: "row_in_page [row_a, row_short] True row_short
      \<in> set (select SEL_ROWS ([], html_parser malformed_world ''short row''))"
    by code_simp
  have b: "\<not> well_formed_row malformed_world (row_in_page [row_a, row_short] True row_short)"
    by code_simp
  have run: "walk malformed_world (Suc 2) 0 [] = ([0], Raises IndexError)"
    by code_simp
  have g: "fst (fetch_page (http_get flaky_world (page_url 0)) 3) = None"
    by code_simp
  show ?thesis
    using row_failure_is_fatal [of malformed_world "row_in_page [row_a, row_short] True row_short"
        0 "''short row''" 2 "[]"]
      row_failure_is_fatal [of flaky_world "row_in_page [row_a, row_short] True row_short"
        0 "''short row''" 0 "[]"] f h r b run g
    by simp
qed

subsection \<open>The fields of a record\<close>

lemma select_one_None_iff: "select_one sel t = None \<longleftrightarrow> select sel t = []"
  by (simp add: select_one_def split: list.splits)

text \<open>
  C7. A row from which a record is built has at least two general cells;
  \<open>remoteTesting\<close> is true exactly when the first of them, in document order, has an
  element of class \<^verbatim>\<open>-yes\<close> below it, and \<open>adaptiveIrt\<close> exactly when the second has.
\<close>

theorem capability_flags:
  assumes "extract_row w row = Inr d"
  shows "2 \<le> length (select SEL_GENERAL row) \<and>
         map_of d ''remoteTesting'' =
           Some (PBool (select SEL_YES (select SEL_GENERAL row ! 0) \<noteq> [])) \<and>
         map_of d ''adaptiveIrt'' =
           Some (PBool (select SEL_YES (select SEL_GENERAL row ! 1) \<noteq> []))"
proof -
  from extract_row_Inr [OF assms] obtain title_tag link c0 c1 cols where
    cols: "select SEL_GENERAL row = c0 # c1 # cols" and
    d: "d = [(''entityId'', opt_str (tag_get row ''data-entity-id'')),
             (''name'', PStr (strip (tag_text title_tag))),
             (''url'', PStr link),
             (''remoteTesting'', PBool (select_one SEL_YES c0 \<noteq> None)),
             (''adaptiveIrt'', PBool (select_one SEL_YES c1 \<noteq> None)),
             (''testTypes'', PList (map (\<lambda>t. strip (tag_text t)) (select SEL_KEY row)))]"
    by blast
  show ?thesis by (simp add: cols d select_one_None_iff)
qed

text \<open>
  The row \<open>row_a\<close> has the mark in its first general cell and none in its second:
  \<open>remoteTesting\<close> is true and \<open>adaptiveIrt\<close> false.
\<close>

theorem capability_flags_witness:
  "extract_row one_page_world (row_in_page [row_a, row_b] False row_a) = Inr record_a \<and>
   select SEL_YES (select SEL_GENERAL (row_in_page [row_a, row_b] False row_a) ! 0) \<noteq> [] \<and>
   select SEL_YES (select SEL_GENERAL (row_in_page [row_a, row_b] False row_a) ! 1) = [] \<and>
   map_of record_a ''remoteTesting'' = Some (PBool True) \<and>
   map_of record_a ''adaptiveIrt'' = Some (PBool False)"
proof -
  have a: "extract_row one_page_world (row_in_page [row_a, row_b] False row_a) = Inr record_a"
    by code_simp
  have b: "select SEL_YES (select SEL_GENERAL (row_in_page [row_a, row_b] False row_a) ! 0) \<noteq> []"
    by code_simp
  have c: "select SEL_YES (select SEL_GENERAL (row_in_page [row_a, row_b] False row_a) ! 1) = []"
    by code_simp
  show ?thesis
    using capability_flags [OF a] a b c by simp
qed

subsection \<open>The writer\<close>

lemma map_of_tabulate: "c \<in> set cols \<Longrightarrow> map_of (map (\<lambda>c. (c, f c)) cols) c = Some (f c)"
  by (induction cols) auto

lemma map_of_replace:
  "map_of r col = Some x \<Longrightarrow>
   map_of (map (\<lambda>(k, v). if k = col then (k, y) else (k, v)) r) col = Some y"
  by (induction r) (auto split: if_splits)

lemma apply_join_rows:
  "apply_join col rs = Inr rs' \<Longrightarrow> i < length rs \<Longrightarrow> map_of (rs ! i) col = Some x \<Longrightarrow>
   length rs' = length rs \<and> (\<exists>y. join_cell x = Inr y \<and> map_of (rs' ! i) col = Some y)"
proof (induction rs arbitrary: rs' i x)
  case Nil
  then show ?case by simp
next
  case (Cons r rs)
  from Cons.prems(1) obtain x0 y0 rs0 where
    r: "map_of r col = Some x0" and y0: "join_cell x0 = Inr y0" and
    rest: "apply_join col rs = Inr rs0" and
    rs': "rs' = map (\<lambda>(k, v). if k = col then (k, y0) else (k, v)) r # rs0"
    by (auto split: option.splits sum.splits)
  show ?case
  proof (cases i)
    case 0
    then have "x = x0" using Cons.prems(3) r by simp
    moreover have "length rs0 = length rs"
    proof (cases rs)
      case Nil
      then show ?thesis using rest by simp
    next
      case (Cons r1 rs1)
      then obtain x1 where "map_of (rs ! 0) col = Some x1"
        using rest by (auto split: option.splits)
      then show ?thesis using Cons.IH [OF rest, of 0 x1] Cons by simp
    qed
    ultimately show ?thesis using 0 y0 rs' map_of_replace [OF r, of y0] by simp
  next
    case (Suc j)
    then show ?thesis using Cons.IH [OF rest, of j] Cons.prems(2,3) rs' by simp
  qed
qed

lemma DataFrame_cell:
  "i < length data \<Longrightarrow> map_of (data ! i) c = Some v \<Longrightarrow>
   c \<in> set (columns (DataFrame data)) \<and> length (rows (DataFrame data)) = length data \<and>
   map_of (rows (DataFrame data) ! i) c = Some v"
proof -
  assume i: "i < length data" and v: "map_of (data ! i) c = Some v"
  have "c \<in> fst ` set (data ! i)"
    using v by (metis map_of_eq_None_iff option.distinct(1))
  then have "c \<in> set (concat (map (map fst) data))"
    using i by (auto intro!: bexI [of _ "data ! i"])
  then show ?thesis
    using i v by (simp add: DataFrame_def Let_def map_of_tabulate)
qed

text \<open>
  C8. The \<open>testTypes\<close> of a record are the stripped texts of the elements of class
  \<^verbatim>\<open>product-catalogue__key\<close> below the row, one for each element, in document
  order: nothing is dropped or merged. In the table, the cell of a record whose
  \<open>testTypes\<close> is a list holds its elements joined with commas.
\<close>

theorem test_types_in_document_order:
  "(extract_row w row = Inr d \<longrightarrow>
      map_of d ''testTypes'' = Some (PList (map (\<lambda>t. strip (tag_text t)) (select SEL_KEY row)))) \<and>
   (snd (write_outputs data) = Inr df \<and> i < length data \<and>
    map_of (data ! i) ''testTypes'' = Some (PList test_types) \<longrightarrow>
      length (rows df) = length data \<and>
      map_of (rows df ! i) ''testTypes'' = Some (PStr (join '','' test_types)))"
proof -
  have doc: "map_of d ''testTypes'' = Some (PList (map (\<lambda>t. strip (tag_text t)) (select SEL_KEY row)))"
    if "extract_row w row = Inr d"
    using extract_row_Inr [OF that] by auto
  have tab: "length (rows df) = length data \<and>
      map_of (rows df ! i) ''testTypes'' = Some (PStr (join '','' test_types))"
    if w: "snd (write_outputs data) = Inr df" and i: "i < length data"
      and t: "map_of (data ! i) ''testTypes'' = Some (PList test_types)"
  proof -
    note cell = DataFrame_cell [OF i t]
    from w cell obtain rs where rs: "apply_join ''testTypes'' (rows (DataFrame data)) = Inr rs"
      and df: "df = (DataFrame data)\<lparr>rows := rs\<rparr>"
      by (auto simp: write_outputs_def flatten_test_types_def split: sum.splits if_splits)
    have "i < length (rows (DataFrame data))" using cell i by simp
    from apply_join_rows [OF rs this, of "PList test_types"] cell
    show ?thesis by (auto simp: df join_cell_def)
  qed
  show ?thesis using doc tab by blast
qed

text \<open>
  The row \<open>row_a\<close> has the keys A, B, A: its record has the list A, B, A and its
  table cell is \<^verbatim>\<open>A,B,A\<close>.
\<close>

theorem test_types_in_document_order_witness:
  "extract_row one_page_world (row_in_page [row_a, row_b] False row_a) = Inr record_a \<and>
   map_of record_a ''testTypes'' = Some (PList [''A'', ''B'', ''A'']) \<and>
   map (\<lambda>t. strip (tag_text t)) (select SEL_KEY (row_in_page [row_a, row_b] False row_a)) =
     [''A'', ''B'', ''A''] \<and>
   map_of (rows (projr (snd (write_outputs [record_a, record_b]))) ! 0) ''testTypes'' =
     Some (PStr ''A,B,A'')"
proof -
  have a: "extract_row one_page_world (row_in_page [row_a, row_b] False row_a) = Inr record_a"
    by code_simp
  have b: "map_of ([record_a, record_b] ! 0) ''testTypes'' = Some (PList [''A'', ''B'', ''A''])"
    by code_simp
  have c: "isl (snd (write_outputs [record_a, record_b])) = False"
    by code_simp
  then have d: "snd (write_outputs [record_a, record_b]) =
      Inr (projr (snd (write_outputs [record_a, record_b])))"
    by (cases "snd (write_outputs [record_a, record_b])") auto
  have e: "(0::nat) < length [record_a, record_b]"
    by simp
  have f: "join '','' [''A'', ''B'', ''A''] = ''A,B,A''"
    by simp
  show ?thesis
    using test_types_in_document_order [of one_page_world "row_in_page [row_a, row_b] False row_a"
        record_a "[record_a, record_b]" "projr (snd (write_outputs [record_a, record_b]))" 0
        "[''A'', ''B'', ''A'']"] a b d e f
    by simp
qed

text \<open>
  The outputs for a result set that is not empty: the document is the list of records;
  the table has the six keys as its columns and the records as its rows, in the same
  order, each with its \<open>testTypes\<close> joined.
\<close>

lemma first_met_keys:
  "distinct ks \<Longrightarrow> set ys \<subseteq> set ks \<Longrightarrow> rev (remdups (rev (ks @ ys))) = ks"
proof -
  assume d: "distinct ks" and sub: "set ys \<subseteq> set ks"
  have "remdups (rev ys @ rev ks) = remdups (rev ks)"
    using sub by (intro remdups_append) simp
  then have "remdups (rev (ks @ ys)) = rev ks"
    using d by (simp add: distinct_remdups_id)
  then show ?thesis by simp
qed

lemma tabulate_own_keys:
  assumes "distinct (map fst d)"
  shows "map (\<lambda>c. (c, case map_of d c of None \<Rightarrow> PNone | Some v \<Rightarrow> v)) (map fst d) = d"
proof -
  have "(fst p, case map_of d (fst p) of None \<Rightarrow> PNone | Some v \<Rightarrow> v) = p" if "p \<in> set d" for p
  proof -
    have "map_of d (fst p) = Some (snd p)"
      using that by (simp add: map_of_eq_Some_iff [OF assms])
    then show ?thesis by simp
  qed
  then have "map (\<lambda>p. (fst p, case map_of d (fst p) of None \<Rightarrow> PNone | Some v \<Rightarrow> v)) d = d"
    by (rule map_idI)
  then show ?thesis by (simp add: comp_def)
qed

lemma flatten_row:
  assumes "distinct (map fst d)" and "map_of d ''testTypes'' = Some (PList xs)"
  shows "map (\<lambda>(k, v). if k = ''testTypes'' then (k, PStr (join '','' xs)) else (k, v)) d =
         flatten_record d"
  unfolding flatten_record_def
proof (rule map_cong [OF refl])
  fix p
  assume p: "p \<in> set d"
  obtain k v where kv: "p = (k, v)" by (cases p)
  have "map_of d k = Some v"
    using p kv by (intro map_of_is_SomeI [OF assms(1)]) simp
  then have "v = PList xs" if "k = ''testTypes''"
    using that assms(2) by (simp del: map_of_eq_Some_iff)
  then show "(case p of (k, v) \<Rightarrow> if k = ''testTypes'' then (k, PStr (join '','' xs)) else (k, v)) =
      (case p of (k, v) \<Rightarrow> if k = ''testTypes''
         then (k, case v of PList xs \<Rightarrow> PStr (join '','' xs) | _ \<Rightarrow> v) else (k, v))"
    using kv by auto
qed

lemma extract_row_keys:
  "extract_row w row = Inr d \<Longrightarrow>
   map fst d = record_keys \<and> (\<exists>xs. map_of d ''testTypes'' = Some (PList xs))"
  using extract_row_Inr [of w row d] by (auto simp: record_keys_def)

lemma apply_join_records:
  "\<forall>d\<in>set data. distinct (map fst d) \<and> (\<exists>xs. map_of d ''testTypes'' = Some (PList xs)) \<Longrightarrow>
   apply_join ''testTypes'' data = Inr (map flatten_record data)"
proof (induction data)
  case Nil
  then show ?case by simp
next
  case (Cons d data)
  then obtain xs where xs: "map_of d ''testTypes'' = Some (PList xs)"
    and dist: "distinct (map fst d)"
    by auto
  have "\<forall>d\<in>set data. distinct (map fst d) \<and> (\<exists>xs. map_of d ''testTypes'' = Some (PList xs))"
    using Cons.prems by (simp del: map_of_eq_Some_iff)
  then have rest: "apply_join ''testTypes'' data = Inr (map flatten_record data)"
    by (rule Cons.IH)
  show ?case using rest xs flatten_row [OF dist xs] by (simp add: join_cell_def)
qed

lemma write_outputs_records:
  assumes "data \<noteq> []" and "\<forall>d\<in>set data. \<exists>row. extract_row w row = Inr d"
  shows "write_outputs data =
           (data, Inr \<lparr>columns = record_keys, rows = map flatten_record data\<rparr>)"
proof -
  have keys: "map fst d = record_keys" if "d \<in> set data" for d
    using that assms(2) extract_row_keys by blast
  have dist: "distinct record_keys" by (simp add: record_keys_def)
  have tt: "\<forall>d\<in>set data. distinct (map fst d) \<and> (\<exists>xs. map_of d ''testTypes'' = Some (PList xs))"
    using assms(2) extract_row_keys dist by metis
  obtain d0 ds where data: "data = d0 # ds" using assms(1) by (cases data) auto
  have "set (concat (map (map fst) ds)) \<subseteq> set record_keys"
    using keys data by auto
  then have cols: "rev (remdups (rev (concat (map (map fst) data)))) = record_keys"
    using first_met_keys [OF dist, of "concat (map (map fst) ds)"] keys [of d0] data by simp
  have "map (\<lambda>c. (c, case map_of d c of None \<Rightarrow> PNone | Some v \<Rightarrow> v)) record_keys = d"
    if "d \<in> set data" for d
    using tabulate_own_keys [of d] keys [OF that] dist by simp
  then have rows: "map (\<lambda>d. map (\<lambda>c. (c, case map_of d c of None \<Rightarrow> PNone | Some v \<Rightarrow> v)) record_keys) data = data"
    by (simp add: map_idI)
  have df: "DataFrame data = \<lparr>columns = record_keys, rows = data\<rparr>"
    by (simp add: DataFrame_def cols rows)
  show ?thesis
    by (simp add: write_outputs_def flatten_test_types_def df apply_join_records [OF tt] record_keys_def)
qed

text \<open>
  C9 fails on the empty result set, which a run returns when the first page it
  fetches has no rows: the document output is the empty list, but the data frame has
  no column, \<^verbatim>\<open>df["testTypes"]\<close> raises a KeyError, and no table is written.
\<close>

theorem empty_result_set_breaks_table:
  "scrape_individual_tests empty_catalog_world 1 = ([0], Returns NoRows []) \<and>
   write_outputs [] = ([], Inl KeyError)"
proof -
  have "scrape_individual_tests empty_catalog_world 1 = ([0], Returns NoRows [])"
    by code_simp
  moreover have "write_outputs [] = ([], Inl KeyError)"
    by (simp add: write_outputs_def flatten_test_types_def DataFrame_def)
  ultimately show ?thesis by simp
qed

end
